theory Spec2Isabelle
  imports Main "HOL-Library.AList"
begin

section \<open>JavaScript string helpers\<close>

text \<open>
  Strings are lists of 8-bit characters, so the model covers text in the Latin-1 range.
  \<open>isWhiteSpace\<close> is the set that \<^verbatim>\<open>String.prototype.trim\<close> and the regular
  expression class \<^verbatim>\<open>\s\<close> share in that range: TAB, LF, VT, FF, CR, space and the
  no-break space.
\<close>

definition isWhiteSpace :: "char \<Rightarrow> bool" where
  "isWhiteSpace c =
     (let n = (of_char c :: nat) in (9 \<le> n \<and> n \<le> 13) \<or> n = 32 \<or> n = 160)"

definition trim :: "string \<Rightarrow> string" where
  "trim s = rev (dropWhile isWhiteSpace (rev (dropWhile isWhiteSpace s)))"

text \<open>
  \<^verbatim>\<open>toLowerCase\<close> in the Latin-1 range: A-Z and the accented capitals 0xC0-0xDE
  (without the multiplication sign 0xD7) move up by 32, everything else stays.
\<close>

definition lowerChar :: "char \<Rightarrow> char" where
  "lowerChar c =
     (let n = (of_char c :: nat)
      in if (65 \<le> n \<and> n \<le> 90) \<or> (192 \<le> n \<and> n \<le> 222 \<and> n \<noteq> 215)
         then char_of (n + 32) else c)"

definition toLowerCase :: "string \<Rightarrow> string" where
  "toLowerCase s = map lowerChar s"

text \<open>\<^verbatim>\<open>s.split(/\s+/).filter(t => t.length > 0)\<close>: the maximal runs of non-space characters.\<close>

fun splitWhitespace :: "string \<Rightarrow> string \<Rightarrow> string list" where
  "splitWhitespace cur [] = (if cur = [] then [] else [cur])"
| "splitWhitespace cur (c # cs) =
     (if isWhiteSpace c
      then (if cur = [] then splitWhitespace [] cs else cur # splitWhitespace [] cs)
      else splitWhitespace (cur @ [c]) cs)"

definition startsWith :: "string \<Rightarrow> string \<Rightarrow> bool" where
  "startsWith s p = (take (length p) s = p)"


section \<open>The search requests of elasticsearch.js\<close>

datatype operator = And | Or

datatype fuzziness = AUTO

text \<open>
  The query clauses that the module sends. A field of a \<open>MultiMatch\<close> is the string the
  source writes, so \<^verbatim>\<open>'filename^2'\<close> keeps its weight suffix.
\<close>

datatype clause =
    MatchPhrase (mp_field: string) (mp_query: string) (mp_boost: nat) (mp_slop: nat)
  | Match (m_field: string) (m_query: string) (m_fuzziness: "fuzziness option")
  | MultiMatch (mm_query: string) (mm_fields: "string list")
      (mm_operator: "operator option") (mm_fuzziness: "fuzziness option")
      (mm_prefix_length: "nat option") (mm_boost: nat)

datatype es_query =
    MatchAll
  | Bool (should: "clause list") (minimum_should_match: "nat option")

record highlight_field =
  fragment_size :: "nat option"
  number_of_fragments :: "nat option"
  highlighter_type :: "string option"

record highlight =
  pre_tags :: "string list"
  post_tags :: "string list"
  hl_order :: string
  highlight_query :: es_query
  hl_fields :: "(string \<times> highlight_field) list"

record search_body =
  body_query :: es_query
  body_highlight :: "highlight option"
  body_size :: nat

definition defaultHighlightField :: highlight_field where
  "defaultHighlightField =
     \<lparr>fragment_size = None, number_of_fragments = None, highlighter_type = None\<rparr>"

text \<open>
  The body that \<^verbatim>\<open>searchDocuments(query)\<close> hands to \<^verbatim>\<open>client.search\<close>. The guard
  \<^verbatim>\<open>!query || query.trim() === ''\<close> selects the listing; every other query is trimmed
  and goes into the five should clauses and the highlight request.
\<close>

definition searchDocuments_body :: "string \<Rightarrow> search_body" where
  "searchDocuments_body query =
     (if query = [] \<or> trim query = []
      then \<lparr>body_query = MatchAll, body_highlight = None, body_size = 100\<rparr>
      else
        let q = trim query in
        \<lparr>body_query =
           Bool
             [MatchPhrase ''content.exact'' q 100 0,
              MatchPhrase ''filename'' q 100 0,
              MultiMatch q [''filename^2'', ''content''] (Some And) None None 50,
              MultiMatch q [''filename'', ''content''] None (Some AUTO) (Some 1) 10,
              MultiMatch q [''filename'', ''content''] (Some Or) None None 1]
             (Some 1),
         body_highlight = Some
           \<lparr>pre_tags = [''<span class=\"highlight\">''],
            post_tags = [''</span>''],
            hl_order = ''score'',
            highlight_query =
              Bool
                [Match ''content.exact'' q None,
                 Match ''content'' q (Some AUTO),
                 Match ''filename'' q (Some AUTO)]
                None,
            hl_fields =
              [(''content'',
                  \<lparr>fragment_size = Some 150, number_of_fragments = Some 5,
                   highlighter_type = Some ''plain''\<rparr>),
               (''content.exact'',
                  \<lparr>fragment_size = Some 150, number_of_fragments = Some 5,
                   highlighter_type = None\<rparr>),
               (''filename'', defaultHighlightField),
               (''originalname'', defaultHighlightField)]\<rparr>,
         body_size = 100\<rparr>)"

text \<open>The body that \<^verbatim>\<open>getAllDocuments()\<close> hands to \<^verbatim>\<open>client.search\<close>.\<close>

definition getAllDocuments_body :: search_body where
  "getAllDocuments_body =
     \<lparr>body_query = MatchAll, body_highlight = None, body_size = 10000\<rparr>"


subsection \<open>Reading a request: tiers, fields, boosts\<close>

text \<open>
  The source numbers its should clauses in comments as four tiers: exact phrase, all terms,
  fuzzy, any term. \<open>clause_tier\<close> recovers the tier from what a clause asks of the engine.
\<close>

datatype tier = ExactPhrase | AllTerms | Fuzzy | AnyTerm

fun clause_tier :: "clause \<Rightarrow> tier option" where
  "clause_tier (MatchPhrase f q b slop) = (if slop = 0 then Some ExactPhrase else None)"
| "clause_tier (Match f q fz) = None"
| "clause_tier (MultiMatch q fs (Some And) None pl b) = Some AllTerms"
| "clause_tier (MultiMatch q fs (Some Or) None pl b) = Some AnyTerm"
| "clause_tier (MultiMatch q fs opr (Some fz) (Some pl) b) = Some Fuzzy"
| "clause_tier (MultiMatch q fs opr fz pl b) = None"

fun clause_boost :: "clause \<Rightarrow> nat" where
  "clause_boost (MatchPhrase f q b slop) = b"
| "clause_boost (Match f q fz) = 1"
| "clause_boost (MultiMatch q fs opr fz pl b) = b"

fun clause_query :: "clause \<Rightarrow> string" where
  "clause_query (MatchPhrase f q b slop) = q"
| "clause_query (Match f q fz) = q"
| "clause_query (MultiMatch q fs opr fz pl b) = q"

text \<open>The name of a field without its \<^verbatim>\<open>^weight\<close> suffix.\<close>

definition fieldName :: "string \<Rightarrow> string" where
  "fieldName f = takeWhile (\<lambda>c. c \<noteq> CHR ''^'') f"

fun clause_fields :: "clause \<Rightarrow> string list" where
  "clause_fields (MatchPhrase f q b slop) = [f]"
| "clause_fields (Match f q fz) = [f]"
| "clause_fields (MultiMatch q fs opr fz pl b) = map fieldName fs"

fun query_clauses :: "es_query \<Rightarrow> clause list" where
  "query_clauses MatchAll = []"
| "query_clauses (Bool cs msm) = cs"

definition tier_clauses :: "es_query \<Rightarrow> tier \<Rightarrow> clause list" where
  "tier_clauses qry t = filter (\<lambda>c. clause_tier c = Some t) (query_clauses qry)"

text \<open>The boost of a tier: the one value that all its clauses carry.\<close>

definition tier_boost :: "es_query \<Rightarrow> tier \<Rightarrow> nat option" where
  "tier_boost qry t =
     (case remdups (map clause_boost (tier_clauses qry t)) of
        [b] \<Rightarrow> Some b
      | _ \<Rightarrow> None)"

text \<open>
  Additive scoring: a document is described by the clauses it matches, and every should
  clause it matches adds its boost to the score.
\<close>

definition additive_score :: "(clause \<Rightarrow> bool) \<Rightarrow> es_query \<Rightarrow> nat" where
  "additive_score matches qry = sum_list (map clause_boost (filter matches (query_clauses qry)))"


section \<open>The index schema of initElasticsearch\<close>

record analyzer =
  analyzer_type :: string
  tokenizer :: string
  token_filters :: "string list"

record word_delimiter =
  filter_type :: string
  generate_word_parts :: bool
  generate_number_parts :: bool
  catenate_words :: bool
  catenate_numbers :: bool
  catenate_all :: bool
  split_on_case_change :: bool
  preserve_original :: bool
  split_on_numerics :: bool

datatype field_mapping =
  FieldMapping (field_type: string) (field_analyzer: "string option")
    (sub_fields: "(string \<times> field_mapping) list")

record index_body =
  analysis_analyzer :: "(string \<times> analyzer) list"
  analysis_filter :: "(string \<times> word_delimiter) list"
  properties :: "(string \<times> field_mapping) list"

text \<open>
  \<^verbatim>\<open>initElasticsearch()\<close> asks whether the index exists and creates it only when it does
  not; the result is the body of the create request, if one is sent.
\<close>

definition initElasticsearch :: "bool \<Rightarrow> index_body option" where
  "initElasticsearch indexExists =
     (if \<not> indexExists then Some
        \<lparr>analysis_analyzer =
           [(''filename_analyzer'',
               \<lparr>analyzer_type = ''custom'', tokenizer = ''standard'',
                token_filters = [''lowercase'', ''filename_word_delimiter'']\<rparr>)],
         analysis_filter =
           [(''filename_word_delimiter'',
               \<lparr>filter_type = ''word_delimiter'',
                generate_word_parts = True,
                generate_number_parts = True,
                catenate_words = True,
                catenate_numbers = True,
                catenate_all = True,
                split_on_case_change = True,
                preserve_original = True,
                split_on_numerics = False\<rparr>)],
         properties =
           [(''originalname'', FieldMapping ''text'' (Some ''filename_analyzer'') []),
            (''content'',
               FieldMapping ''text'' (Some ''standard'')
                 [(''exact'', FieldMapping ''text'' (Some ''whitespace'') [])]),
            (''size'', FieldMapping ''long'' None []),
            (''uploadDate'', FieldMapping ''date'' None [])]\<rparr>
      else None)"

text \<open>
  Resolving a field path in the mapping: \<^verbatim>\<open>content.exact\<close> is the sub-field
  \<^verbatim>\<open>exact\<close> of the property \<^verbatim>\<open>content\<close>. A path the mapping does not declare
  resolves to nothing.
\<close>

definition resolve_field :: "index_body \<Rightarrow> string \<Rightarrow> field_mapping option" where
  "resolve_field body path =
     (let parent = takeWhile (\<lambda>c. c \<noteq> CHR ''.'') path;
          rest = dropWhile (\<lambda>c. c \<noteq> CHR ''.'') path
      in case map_of (properties body) parent of
           None \<Rightarrow> None
         | Some fm \<Rightarrow> (if rest = [] then Some fm else map_of (sub_fields fm) (tl rest)))"

definition declared_analyzer :: "index_body \<Rightarrow> string \<Rightarrow> string option" where
  "declared_analyzer body path =
     (case resolve_field body path of None \<Rightarrow> None | Some fm \<Rightarrow> field_analyzer fm)"

text \<open>
  An analyzer of the settings splits on delimiters and case changes and keeps the original
  token when one of its token filters is a word delimiter with these three switches on.
\<close>

definition splits_and_preserves :: "index_body \<Rightarrow> string \<Rightarrow> bool" where
  "splits_and_preserves body name =
     (case map_of (analysis_analyzer body) name of
        None \<Rightarrow> False
      | Some a \<Rightarrow>
          list_ex (\<lambda>f. case map_of (analysis_filter body) f of
                         None \<Rightarrow> False
                       | Some wd \<Rightarrow> filter_type wd = ''word_delimiter''
                           \<and> generate_word_parts wd \<and> split_on_case_change wd
                           \<and> preserve_original wd)
            (token_filters a))"

text \<open>
  A field is unanalyzed when the mapping declares it, not as text and with no analyzer:
  its values are then indexed as they are. A text field is always analyzed.
\<close>

definition unanalyzed :: "index_body \<Rightarrow> string \<Rightarrow> bool" where
  "unanalyzed body path =
     (case resolve_field body path of
        None \<Rightarrow> False
      | Some fm \<Rightarrow> field_type fm \<noteq> ''text'' \<and> field_analyzer fm = None)"

text \<open>The filename-like fields of a stored document (see \<open>indexDocument\<close>).\<close>

definition filename_like :: "string \<Rightarrow> bool" where
  "filename_like f = (f = ''filename'' \<or> f = ''originalname'')"


section \<open>The highlight classifier of file-upload.component.ts\<close>

text \<open>
  \<^verbatim>\<open>processHighlights\<close> rewrites a fragment with
  \<^verbatim>\<open>html.replace(/<span class="highlight">(.*?)<\/span>/gi, callback)\<close>.
  The pieces of that regular expression: a literal matched without regard to case, a lazy
  run of characters other than line terminators, and the closing literal. Of the line
  terminators of the language (LF, CR, U+2028, U+2029), the 8-bit characters of this
  development have the first two.
\<close>

definition isLineTerminator :: "char \<Rightarrow> bool" where
  "isLineTerminator c = (c = CHR 0x0A \<or> c = CHR 0x0D)"

text \<open>
  Case folding of the \<^verbatim>\<open>i\<close> flag: an ASCII letter folds onto its capital; a character
  outside ASCII never folds into ASCII, so it cannot match a character of the two tags.
\<close>

definition canonicalize :: "char \<Rightarrow> char" where
  "canonicalize c =
     (let n = (of_char c :: nat) in if 97 \<le> n \<and> n \<le> 122 then char_of (n - 32) else c)"

fun matchesIgnoreCase :: "string \<Rightarrow> string \<Rightarrow> bool" where
  "matchesIgnoreCase [] s = True"
| "matchesIgnoreCase (p # ps) [] = False"
| "matchesIgnoreCase (p # ps) (c # cs) =
     (canonicalize p = canonicalize c \<and> matchesIgnoreCase ps cs)"

definition openTag :: string where
  "openTag = ''<span class=\"highlight\">''"

definition closeTag :: string where
  "closeTag = ''</span>''"

text \<open>
  The group \<^verbatim>\<open>(.*?)\<close> followed by the closing tag: the text up to the first closing
  tag, or no match when a line terminator or the end of the input comes first.
\<close>

fun lazyContent :: "string \<Rightarrow> string option" where
  "lazyContent [] = None"
| "lazyContent (c # cs) =
     (if matchesIgnoreCase closeTag (c # cs) then Some []
      else if isLineTerminator c then None
      else map_option ((#) c) (lazyContent cs))"

definition matchSpan :: "string \<Rightarrow> string option" where
  "matchSpan s =
     (if matchesIgnoreCase openTag s then lazyContent (drop (length openTag) s) else None)"

text \<open>The callback of the replace: it sees the captured content and returns the new span.\<close>

definition replacer :: "string \<Rightarrow> string list \<Rightarrow> string \<Rightarrow> string" where
  "replacer term terms content =
     (let lowerContent = toLowerCase content;
          isExact = (list_ex (\<lambda>t. t = lowerContent) terms \<or> term = lowerContent)
      in if isExact
         then ''<span class=\"highlight\">'' @ content @ ''</span>''
         else ''<span class=\"highlight-fuzzy\">'' @ content @ ''</span>'')"

text \<open>
  The global replace scans from the left; after a match it resumes behind the match. The
  counter is the number of characters of the current match still to be passed over.
\<close>

fun replaceSpans :: "string \<Rightarrow> string list \<Rightarrow> nat \<Rightarrow> string \<Rightarrow> string" where
  "replaceSpans term terms k [] = []"
| "replaceSpans term terms (Suc k) (c # cs) = replaceSpans term terms k cs"
| "replaceSpans term terms 0 (c # cs) =
     (case matchSpan (c # cs) of
        None \<Rightarrow> c # replaceSpans term terms 0 cs
      | Some content \<Rightarrow>
          replacer term terms content
          @ replaceSpans term terms (length openTag + length content + length closeTag - 1) cs)"

definition processHighlights :: "string \<Rightarrow> string \<Rightarrow> string" where
  "processHighlights searchTerm html =
     (if searchTerm = [] \<or> trim searchTerm = [] \<or> html = [] then html
      else
        let term = toLowerCase (trim searchTerm);
            terms = splitWhitespace [] term
        in replaceSpans term terms 0 html)"

subsection \<open>Fragments as the specification describes them\<close>

text \<open>
  A wrapped span is an opening tag, an inner text and a closing tag: the tags in any
  letter case, the inner text on one line and ending at the first closing tag.
\<close>

definition same_ignoring_case :: "string \<Rightarrow> string \<Rightarrow> bool" where
  "same_ignoring_case a b = (map canonicalize a = map canonicalize b)"

definition closes_early :: "string \<Rightarrow> string \<Rightarrow> bool" where
  "closes_early inner closing =
     list_ex (\<lambda>k. matchesIgnoreCase closeTag (drop k (inner @ closing))) [0..<length inner]"

definition wrapped :: "string \<Rightarrow> string \<Rightarrow> string \<Rightarrow> bool" where
  "wrapped opening inner closing =
     (same_ignoring_case opening openTag \<and> same_ignoring_case closing closeTag
      \<and> \<not> list_ex isLineTerminator inner \<and> \<not> closes_early inner closing)"

text \<open>A text begins with a wrapped span; a wrapped span begins somewhere inside \<open>t\<close>, which \<open>rest\<close> follows.\<close>

definition span_at :: "string \<Rightarrow> bool" where
  "span_at s =
     list_ex (\<lambda>n. wrapped (take (length openTag) s)
                     (take n (drop (length openTag) s))
                     (take (length closeTag) (drop (length openTag + n) s)))
       [0..<Suc (length s)]"

definition span_starts_within :: "string \<Rightarrow> string \<Rightarrow> bool" where
  "span_starts_within t rest = list_ex (\<lambda>k. span_at (drop k (t @ rest))) [0..<length t]"

text \<open>
  A fragment is a sequence of plain text and wrapped spans, each span with the tags as
  the fragment writes them. The sequence is well formed when its spans are wrapped spans
  and no wrapped span begins inside its plain text.
\<close>

datatype segment = PlainText string | WrappedSpan string string string

datatype span_label = ExactSpan | FuzzySpan

fun render_segment :: "segment \<Rightarrow> string" where
  "render_segment (PlainText t) = t"
| "render_segment (WrappedSpan opening inner closing) = opening @ inner @ closing"

definition fragment_of :: "segment list \<Rightarrow> string" where
  "fragment_of segs = concat (map render_segment segs)"

fun well_formed :: "segment list \<Rightarrow> bool" where
  "well_formed [] = True"
| "well_formed (PlainText t # segs) =
     (\<not> span_starts_within t (fragment_of segs) \<and> well_formed segs)"
| "well_formed (WrappedSpan opening inner closing # segs) =
     (wrapped opening inner closing \<and> well_formed segs)"

text \<open>The label by the inner text as it stands, lowercased.\<close>

definition label_of :: "string \<Rightarrow> string \<Rightarrow> span_label" where
  "label_of searchTerm inner =
     (if toLowerCase inner \<in> set (splitWhitespace [] (toLowerCase (trim searchTerm)))
         \<or> toLowerCase inner = toLowerCase (trim searchTerm)
      then ExactSpan else FuzzySpan)"

text \<open>
  The label as the specification words it: nested markup, anything between \<^verbatim>\<open><\<close> and
  the next \<^verbatim>\<open>>\<close>, is stripped from the inner text before the comparison.
\<close>

fun stripMarkup :: "bool \<Rightarrow> string \<Rightarrow> string" where
  "stripMarkup inTag [] = []"
| "stripMarkup inTag (c # cs) =
     (if inTag then stripMarkup (c \<noteq> CHR ''>'') cs
      else if c = CHR ''<'' then stripMarkup True cs
      else c # stripMarkup False cs)"

definition spec_label_of :: "string \<Rightarrow> string \<Rightarrow> span_label" where
  "spec_label_of searchTerm inner = label_of searchTerm (stripMarkup False inner)"

fun wrap :: "span_label \<Rightarrow> string \<Rightarrow> string" where
  "wrap ExactSpan inner = ''<span class=\"highlight\">'' @ inner @ ''</span>''"
| "wrap FuzzySpan inner = ''<span class=\"highlight-fuzzy\">'' @ inner @ ''</span>''"

fun relabel :: "string \<Rightarrow> segment \<Rightarrow> string" where
  "relabel searchTerm (PlainText t) = t"
| "relabel searchTerm (WrappedSpan opening inner closing) = wrap (label_of searchTerm inner) inner"


section \<open>The index service and the reconciliation of elasticsearch.js\<close>

subsection \<open>State\<close>

text \<open>The \<^verbatim>\<open>fs.Stats\<close> of an entry of the uploads directory, as far as the module reads it.\<close>

record stats =
  isFile :: bool
  stat_size :: nat
  mtime :: nat

text \<open>The body that \<^verbatim>\<open>indexDocument\<close> stores under the id \<^verbatim>\<open>doc.filename\<close>.\<close>

record document =
  filename :: string
  originalname :: string
  content :: string
  doc_size :: nat
  uploadDate :: nat

text \<open>The argument of \<^verbatim>\<open>indexDocument\<close>: content and upload date may be missing.\<close>

record doc_input =
  in_filename :: string
  in_originalname :: string
  in_content :: "string option"
  in_size :: nat
  in_uploadDate :: "nat option"

text \<open>
  What the module may see thrown: a response of the index service with a status code, a
  failure of the client without one (\<^verbatim>\<open>error.meta?.statusCode\<close> is then undefined),
  or a failed stat of a directory entry.
\<close>

datatype js_error = ResponseError nat | ConnectionError | StatError

datatype es_call = SearchCall search_body | DeleteCall string | IndexCall string document

datatype console_line =
    SyncStarted
  | UploadsMissing
  | NothingToSync
  | FilesFound nat
  | DocumentsFound nat
  | RemovingOrphan string
  | OrphansRemoved nat
  | SkippingUnsupported string
  | IndexingNewFile string
  | IndexedNewFile string
  | FileFailed string
  | SyncDone
  | SummaryOrphans nat
  | SummaryIndexed nat
  | SummarySkipped nat
  | SyncFailed
  | DocumentIndexed string
  | IndexingError
  | DocumentDeleted string
  | DeleteError
  | ListingError

text \<open>
  The world the module acts on. \<open>uploads\<close> is the uploads directory in listing order, or
  \<open>None\<close> when it does not exist; an entry without stats is one whose stat throws (a
  dangling link). The index service is reachable or not. Its index, when it exists, holds
  the documents by id, and requests by id act on it at once. A search sees
  \<open>es_searchable\<close>: the documents as of the last refresh of the index, in the order a
  match-all search returns them; the module never asks for a refresh. The service refuses
  writes for the ids in \<open>es_refuses\<close>. \<open>es_calls\<close> records every request sent,
  \<open>console\<close> every line printed, \<open>now\<close> is the clock.
\<close>

record world =
  uploads :: "(string \<times> stats option) list option"
  es_up :: bool
  es_index :: "(string \<times> document) list option"
  es_searchable :: "(string \<times> document) list"
  es_refuses :: "string list"
  es_calls :: "es_call list"
  console :: "console_line list"
  now :: nat

definition say :: "console_line \<Rightarrow> world \<Rightarrow> world" where
  "say l w = w\<lparr>console := console w @ [l]\<rparr>"

text \<open>A refresh of the index, which the service does on its own between requests.\<close>

definition refresh :: "world \<Rightarrow> world" where
  "refresh w =
     w\<lparr>es_searchable := (case es_index w of None \<Rightarrow> [] | Some docs \<Rightarrow> docs)\<rparr>"

subsection \<open>The client\<close>

text \<open>
  The three requests of the client that the reconciliation uses, against the service as
  the module relies on it: a match-all search returns the first \<open>size\<close> searchable
  documents, or 404 when the index is missing; a delete of an id that is not there is
  answered 404; an index request replaces the document of that id or appends it, creating
  the index when needed. A write does not change what a search sees before the next
  refresh.
\<close>

definition client_search_all :: "search_body \<Rightarrow> world \<Rightarrow> (js_error + (string \<times> document) list) \<times> world" where
  "client_search_all body w =
     (let w' = w\<lparr>es_calls := es_calls w @ [SearchCall body]\<rparr>
      in if \<not> es_up w then (Inl ConnectionError, w')
         else case es_index w of
                None \<Rightarrow> (Inl (ResponseError 404), w')
              | Some docs \<Rightarrow> (Inr (take (body_size body) (es_searchable w)), w'))"

definition client_delete :: "string \<Rightarrow> world \<Rightarrow> (js_error + unit) \<times> world" where
  "client_delete ident w =
     (let w' = w\<lparr>es_calls := es_calls w @ [DeleteCall ident]\<rparr>
      in if \<not> es_up w then (Inl ConnectionError, w')
         else case es_index w of
                None \<Rightarrow> (Inl (ResponseError 404), w')
              | Some docs \<Rightarrow>
                  (if ident \<in> set (map fst docs)
                   then (Inr (), w'\<lparr>es_index := Some (AList.delete ident docs)\<rparr>)
                   else (Inl (ResponseError 404), w')))"

definition client_index :: "string \<Rightarrow> document \<Rightarrow> world \<Rightarrow> (js_error + unit) \<times> world" where
  "client_index ident body w =
     (let w' = w\<lparr>es_calls := es_calls w @ [IndexCall ident body]\<rparr>
      in if \<not> es_up w then (Inl ConnectionError, w')
         else if ident \<in> set (es_refuses w) then (Inl (ResponseError 400), w')
         else (Inr (),
               w'\<lparr>es_index :=
                    Some (AList.update ident body
                            (case es_index w of None \<Rightarrow> [] | Some docs \<Rightarrow> docs))\<rparr>))"

subsection \<open>indexDocument, deleteDocument, getAllDocuments\<close>

text \<open>The body of the index request: empty content and the current time fill the gaps.\<close>

definition document_of :: "doc_input \<Rightarrow> nat \<Rightarrow> document" where
  "document_of doc clock =
     \<lparr>filename = in_filename doc,
      originalname = in_originalname doc,
      content = (case in_content doc of None \<Rightarrow> [] | Some c \<Rightarrow> c),
      doc_size = in_size doc,
      uploadDate = (case in_uploadDate doc of None \<Rightarrow> clock | Some d \<Rightarrow> d)\<rparr>"

definition indexDocument :: "doc_input \<Rightarrow> world \<Rightarrow> (js_error + unit) \<times> world" where
  "indexDocument doc w =
     (case client_index (in_filename doc) (document_of doc (now w)) w of
        (Inr r, w') \<Rightarrow> (Inr r, say (DocumentIndexed (in_filename doc)) w')
      | (Inl e, w') \<Rightarrow> (Inl e, say IndexingError w'))"

text \<open>
  \<^verbatim>\<open>deleteDocument\<close> catches every error of the delete request; it prints the error unless
  the status code is 404, and rethrows nothing.
\<close>

definition deleteDocument :: "string \<Rightarrow> world \<Rightarrow> (js_error + unit) \<times> world" where
  "deleteDocument ident w =
     (case client_delete ident w of
        (Inr r, w') \<Rightarrow> (Inr (), say (DocumentDeleted ident) w')
      | (Inl e, w') \<Rightarrow>
          (if e \<noteq> ResponseError 404 then (Inr (), say DeleteError w') else (Inr (), w')))"

definition getAllDocuments :: "world \<Rightarrow> (js_error + (string \<times> document) list) \<times> world" where
  "getAllDocuments w =
     (case client_search_all getAllDocuments_body w of
        (Inr hits, w') \<Rightarrow> (Inr hits, w')
      | (Inl e, w') \<Rightarrow>
          (if e = ResponseError 404 then (Inr [], w')
           else (Inl e, say ListingError w')))"

subsection \<open>getMimeType\<close>

text \<open>
  \<^verbatim>\<open>path.extname\<close> on the name of a directory entry (a name without a slash): the text
  from the last dot on, and nothing when there is no dot, when the only dot is the first
  character, or when the name is \<^verbatim>\<open>..\<close>.
\<close>

definition extname :: "string \<Rightarrow> string" where
  "extname name =
     (let ext = rev (takeWhile (\<lambda>c. c \<noteq> CHR ''.'') (rev name));
          stem = take (length name - length ext - 1) name
      in if CHR ''.'' \<in> set name \<and> stem \<noteq> [] \<and> name \<noteq> ''..'' then CHR ''.'' # ext
         else [])"

definition getMimeType :: "string \<Rightarrow> string option" where
  "getMimeType name =
     (let ext = toLowerCase (extname name)
      in if ext = ''.pdf'' then Some ''application/pdf''
         else if ext = ''.doc'' then Some ''application/msword''
         else if ext = ''.docx''
           then Some ''application/vnd.openxmlformats-officedocument.wordprocessingml.document''
         else if ext = ''.xls'' then Some ''application/vnd.ms-excel''
         else if ext = ''.xlsx''
           then Some ''application/vnd.openxmlformats-officedocument.spreadsheetml.sheet''
         else None)"

definition isSupportedFileType :: "string \<Rightarrow> bool" where
  "isSupportedFileType name = (getMimeType name \<noteq> None)"

subsection \<open>syncFilesWithElasticsearch\<close>

text \<open>
  \<^verbatim>\<open>fs.statSync\<close> of an entry of the uploads directory: it throws when the name is not
  there or the entry cannot be followed.
\<close>

definition statSync :: "(string \<times> stats option) list \<Rightarrow> string \<Rightarrow> js_error + stats" where
  "statSync entries name =
     (case map_of entries name of
        Some (Some st) \<Rightarrow> Inr st
      | _ \<Rightarrow> Inl StatError)"

text \<open>
  The filter over the names that \<^verbatim>\<open>readdirSync\<close> returns. It stats every name in
  turn, hidden ones too; a stat that throws ends the filter, and with it the run.
\<close>

fun filterFiles :: "(string \<times> stats option) list \<Rightarrow> string list \<Rightarrow> js_error + string list" where
  "filterFiles entries [] = Inr []"
| "filterFiles entries (name # names) =
     (case statSync entries name of
        Inl e \<Rightarrow> Inl e
      | Inr st \<Rightarrow>
          (case filterFiles entries names of
             Inl e \<Rightarrow> Inl e
           | Inr files \<Rightarrow>
               Inr (if isFile st \<and> \<not> startsWith name ''.'' then name # files else files)))"

definition filesInDirectory :: "(string \<times> stats option) list \<Rightarrow> js_error + string list" where
  "filesInDirectory entries = filterFiles entries (map fst entries)"

text \<open>The loop over the orphaned records.\<close>

fun deleteOrphans :: "(string \<times> document) list \<Rightarrow> world \<Rightarrow> (js_error + unit) \<times> world" where
  "deleteOrphans [] w = (Inr (), w)"
| "deleteOrphans (doc # docs) w =
     (case deleteDocument (fst doc) (say (RemovingOrphan (fst doc)) w) of
        (Inl e, w') \<Rightarrow> (Inl e, w')
      | (Inr r, w') \<Rightarrow> deleteOrphans docs w')"

text \<open>
  The body of the loop over the new files, with its two counters. \<open>extractText\<close> is the
  text extractor, which takes the file and the mime type and never throws. A stat or an
  index request that throws is caught for that file alone.
\<close>

definition indexNewFile ::
  "(string \<Rightarrow> string \<Rightarrow> string) \<Rightarrow> (string \<times> stats option) list \<Rightarrow> string
     \<Rightarrow> nat \<times> nat \<times> world \<Rightarrow> nat \<times> nat \<times> world" where
  "indexNewFile extractText entries name acc =
     (case acc of (indexedCount, skippedCount, w) \<Rightarrow>
        (case getMimeType name of
           None \<Rightarrow> (indexedCount, skippedCount + 1, say (SkippingUnsupported name) w)
         | Some mimetype \<Rightarrow>
             (let w1 = say (IndexingNewFile name) w
              in case statSync entries name of
                   Inl e \<Rightarrow> (indexedCount, skippedCount, say (FileFailed name) w1)
                 | Inr st \<Rightarrow>
                     (case indexDocument
                             \<lparr>in_filename = name,
                              in_originalname = name,
                              in_content = Some (extractText name mimetype),
                              in_size = stat_size st,
                              in_uploadDate = Some (mtime st)\<rparr> w1 of
                        (Inl e, w2) \<Rightarrow> (indexedCount, skippedCount, say (FileFailed name) w2)
                      | (Inr r, w2) \<Rightarrow>
                          (indexedCount + 1, skippedCount, say (IndexedNewFile name) w2)))))"

fun indexNewFiles ::
  "(string \<Rightarrow> string \<Rightarrow> string) \<Rightarrow> (string \<times> stats option) list \<Rightarrow> string list
     \<Rightarrow> nat \<times> nat \<times> world \<Rightarrow> nat \<times> nat \<times> world" where
  "indexNewFiles extractText entries [] acc = acc"
| "indexNewFiles extractText entries (name # names) acc =
     indexNewFiles extractText entries names (indexNewFile extractText entries name acc)"

definition syncFilesWithElasticsearch ::
  "(string \<Rightarrow> string \<Rightarrow> string) \<Rightarrow> world \<Rightarrow> (js_error + unit) \<times> world" where
  "syncFilesWithElasticsearch extractText w0 =
     (let w = say SyncStarted w0 in
      case uploads w of
        None \<Rightarrow>
          (Inr (), say NothingToSync (say UploadsMissing (w\<lparr>uploads := Some []\<rparr>)))
      | Some entries \<Rightarrow>
          (case filesInDirectory entries of
             Inl e \<Rightarrow> (Inl e, say SyncFailed w)
           | Inr files \<Rightarrow>
          (let w1 = say (FilesFound (length files)) w
           in case getAllDocuments w1 of
                (Inl e, w2) \<Rightarrow> (Inl e, say SyncFailed w2)
              | (Inr documentsInES, w2) \<Rightarrow>
                  (let filenamesInES = map fst documentsInES;
                       w3 = say (DocumentsFound (length (remdups filenamesInES))) w2;
                       orphanedRecords =
                         filter (\<lambda>doc. fst doc \<notin> set files) documentsInES
                   in case deleteOrphans orphanedRecords w3 of
                        (Inl e, w4) \<Rightarrow> (Inl e, say SyncFailed w4)
                      | (Inr r, w4) \<Rightarrow>
                          (let w5 = (if length orphanedRecords > 0
                                     then say (OrphansRemoved (length orphanedRecords)) w4
                                     else w4);
                               newFiles =
                                 filter (\<lambda>name. name \<notin> set filenamesInES
                                                  \<and> isSupportedFileType name) files
                           in case indexNewFiles extractText entries newFiles (0, 0, w5) of
                                (indexedCount, skippedCount, w6) \<Rightarrow>
                                  (let w7 = say (SummaryIndexed indexedCount)
                                              (say (SummaryOrphans (length orphanedRecords))
                                                 (say SyncDone w6))
                                   in (Inr (),
                                       if skippedCount > 0
                                       then say (SummarySkipped skippedCount) w7
                                       else w7)))))))"

subsection \<open>Reading a run\<close>

fun deleted_ids :: "es_call list \<Rightarrow> string list" where
  "deleted_ids [] = []"
| "deleted_ids (DeleteCall ident # cs) = ident # deleted_ids cs"
| "deleted_ids (c # cs) = deleted_ids cs"

fun upserted_ids :: "es_call list \<Rightarrow> string list" where
  "upserted_ids [] = []"
| "upserted_ids (IndexCall ident body # cs) = ident # upserted_ids cs"
| "upserted_ids (c # cs) = upserted_ids cs"

text \<open>The world of a loop state.\<close>

definition acc_world :: "nat \<times> nat \<times> world \<Rightarrow> world" where
  "acc_world acc = snd (snd acc)"

text \<open>
  The ids the index holds, the ids a search can see, and the requests a run has added to
  the record.
\<close>

definition indexed_ids :: "world \<Rightarrow> string list" where
  "indexed_ids w = (case es_index w of None \<Rightarrow> [] | Some docs \<Rightarrow> map fst docs)"

definition visible_ids :: "world \<Rightarrow> string list" where
  "visible_ids w = (case es_index w of None \<Rightarrow> [] | Some docs \<Rightarrow> map fst (es_searchable w))"

text \<open>The ids that the listing of \<open>getAllDocuments\<close> returns when the service answers.\<close>

definition listed_ids :: "world \<Rightarrow> string list" where
  "listed_ids w = take (body_size getAllDocuments_body) (visible_ids w)"

text \<open>
  The file entries of the storage root as the specification counts them: the names that
  are regular files, without the hidden ones (the names that begin with a dot) and so
  without the directories.
\<close>

definition regular_file :: "(string \<times> stats option) list \<Rightarrow> string \<Rightarrow> bool" where
  "regular_file entries name =
     (case map_of entries name of Some (Some st) \<Rightarrow> isFile st | _ \<Rightarrow> False)"

definition hidden :: "string \<Rightarrow> bool" where
  "hidden name = (take 1 name = ''.'')"

definition backing_files :: "(string \<times> stats option) list \<Rightarrow> string list" where
  "backing_files entries =
     filter (\<lambda>name. regular_file entries name \<and> \<not> hidden name) (map fst entries)"


definition new_calls :: "world \<Rightarrow> world \<Rightarrow> es_call list" where
  "new_calls before after = drop (length (es_calls before)) (es_calls after)"

text \<open>
  The requests of a second run that follows a first one, with \<open>between\<close> standing for
  what the index service does in between (a refresh, or nothing); the storage is not
  touched.
\<close>

definition second_run ::
  "(world \<Rightarrow> world) \<Rightarrow> (string \<Rightarrow> string \<Rightarrow> string) \<Rightarrow> world \<Rightarrow> es_call list" where
  "second_run between extractText w =
     (let w1 = between (snd (syncFilesWithElasticsearch extractText w))
      in new_calls w1 (snd (syncFilesWithElasticsearch extractText w1)))"

definition nothing :: "world \<Rightarrow> world" where
  "nothing w = w"

text \<open>The skipped count that the summary of a run reports: the line is printed only when it is positive.\<close>

fun reported_skipped :: "console_line list \<Rightarrow> nat" where
  "reported_skipped [] = 0"
| "reported_skipped (SummarySkipped n # ls) = n"
| "reported_skipped (l # ls) = reported_skipped ls"


text \<open>
  The unsupported-type file entries of the storage root that the index does not hold: the
  files that the specification expects the summary to count as skipped.
\<close>

definition unsupported_absent :: "world \<Rightarrow> string list" where
  "unsupported_absent w =
     (case uploads w of
        None \<Rightarrow> []
      | Some entries \<Rightarrow>
          filter (\<lambda>name. \<not> isSupportedFileType name \<and> name \<notin> set (indexed_ids w))
            (backing_files entries))"

subsection \<open>Example worlds\<close>

definition noText :: "string \<Rightarrow> string \<Rightarrow> string" where
  "noText file mimetype = []"

definition plain_file :: stats where
  "plain_file = \<lparr>isFile = True, stat_size = 10, mtime = 5\<rparr>"


definition stored :: "string \<Rightarrow> string \<times> document" where
  "stored name =
     (name, \<lparr>filename = name, originalname = name, content = [], doc_size = 10, uploadDate = 5\<rparr>)"

text \<open>No uploads directory, one indexed document.\<close>

definition no_uploads_world :: world where
  "no_uploads_world =
     \<lparr>uploads = None, es_up = True, es_index = Some [stored ''gone.pdf''],
      es_searchable = [stored ''gone.pdf''],
      es_refuses = [], es_calls = [], console = [], now = 0\<rparr>"

text \<open>One stored PDF that is not indexed, one indexed document whose file is gone.\<close>

definition diverged_world :: world where
  "diverged_world =
     \<lparr>uploads = Some [(''a.pdf'', Some plain_file)], es_up = True,
      es_index = Some [stored ''gone.pdf''],
      es_searchable = [stored ''gone.pdf''],
      es_refuses = [], es_calls = [], console = [], now = 0\<rparr>"






text \<open>One stored text file, an empty index.\<close>

definition notes_world :: world where
  "notes_world =
     \<lparr>uploads = Some [(''notes.txt'', Some plain_file)], es_up = True, es_index = Some [],
      es_searchable = [],
      es_refuses = [], es_calls = [], console = [], now = 0\<rparr>"






section \<open>Properties of the search requests\<close>

lemma trim_Nil: "trim [] = []"
  by (simp add: trim_def)

lemma ranked_query:
  "trim query \<noteq> [] \<Longrightarrow>
   body_query (searchDocuments_body query) =
     Bool
       [MatchPhrase ''content.exact'' (trim query) 100 0,
        MatchPhrase ''filename'' (trim query) 100 0,
        MultiMatch (trim query) [''filename^2'', ''content''] (Some And) None None 50,
        MultiMatch (trim query) [''filename'', ''content''] None (Some AUTO) (Some 1) 10,
        MultiMatch (trim query) [''filename'', ''content''] (Some Or) None None 1]
       (Some 1)"
  by (auto simp add: searchDocuments_body_def Let_def trim_Nil)

lemma trim_quarterly_report: "trim ''quarterly report'' \<noteq> []"
  by (simp add: trim_def isWhiteSpace_def)

text \<open>
  C1, as the specification states it, fails: the exact-content field that tier 1 targets
  is not unanalyzed. The schema declares \<^verbatim>\<open>content.exact\<close> as a text field with the
  whitespace analyzer.
\<close>

theorem exact_content_field_is_analyzed_counterexample:
  "''content.exact''
     \<in> set (concat (map clause_fields
           (tier_clauses (body_query (searchDocuments_body ''report'')) ExactPhrase)))
   \<and> \<not> unanalyzed (the (initElasticsearch False)) ''content.exact''
   \<and> resolve_field (the (initElasticsearch False)) ''content.exact''
       = Some (FieldMapping ''text'' (Some ''whitespace'') [])"
  by (simp add: searchDocuments_body_def trim_def isWhiteSpace_def tier_clauses_def
      initElasticsearch_def unanalyzed_def resolve_field_def Let_def)

text \<open>
  C1, amended. For a query that is not blank, the request of \<open>searchDocuments\<close> is a bool
  query whose should clauses fall into exactly four tiers, with at least one clause
  required to match: exact phrase (slop 0) on \<^verbatim>\<open>filename\<close> and on the exact-content
  field \<^verbatim>\<open>content.exact\<close>, which the schema analyzes with the whitespace analyzer, with
  boost 100; all terms on filename and content with boost 50; fuzzy with prefix length 1 on
  filename and content with boost 10; any term on filename and content with boost 1. Every
  clause carries the trimmed query.
\<close>

theorem searchDocuments_four_tiers:
  assumes "trim query \<noteq> []"
  shows "\<exists>cs. body_query (searchDocuments_body query) = Bool cs (Some 1)
     \<and> remdups (map clause_tier cs)
         = [Some ExactPhrase, Some AllTerms, Some Fuzzy, Some AnyTerm]
     \<and> map (\<lambda>c. (clause_fields c, clause_boost c, mp_slop c))
           (tier_clauses (Bool cs (Some 1)) ExactPhrase)
         = [([''content.exact''], 100, 0), ([''filename''], 100, 0)]
     \<and> map (\<lambda>c. map (resolve_field (the (initElasticsearch False))) (clause_fields c))
           (tier_clauses (Bool cs (Some 1)) ExactPhrase)
         = [[Some (FieldMapping ''text'' (Some ''whitespace'') [])], [None]]
     \<and> map (\<lambda>c. (clause_fields c, mm_operator c, mm_fuzziness c, clause_boost c))
           (tier_clauses (Bool cs (Some 1)) AllTerms)
         = [([''filename'', ''content''], Some And, None, 50)]
     \<and> map (\<lambda>c. (clause_fields c, mm_fuzziness c, mm_prefix_length c, clause_boost c))
           (tier_clauses (Bool cs (Some 1)) Fuzzy)
         = [([''filename'', ''content''], Some AUTO, Some 1, 10)]
     \<and> map (\<lambda>c. (clause_fields c, mm_operator c, mm_fuzziness c, clause_boost c))
           (tier_clauses (Bool cs (Some 1)) AnyTerm)
         = [([''filename'', ''content''], Some Or, None, 1)]
     \<and> (\<forall>c \<in> set cs. clause_query c = trim query)"
  by (simp add: ranked_query [OF assms] tier_clauses_def fieldName_def
      initElasticsearch_def resolve_field_def Let_def)

theorem searchDocuments_four_tiers_witness:
  "trim ''quarterly report'' \<noteq> []
   \<and> (\<exists>cs. body_query (searchDocuments_body ''quarterly report'') = Bool cs (Some 1)
     \<and> remdups (map clause_tier cs)
         = [Some ExactPhrase, Some AllTerms, Some Fuzzy, Some AnyTerm]
     \<and> map (\<lambda>c. (clause_fields c, clause_boost c, mp_slop c))
           (tier_clauses (Bool cs (Some 1)) ExactPhrase)
         = [([''content.exact''], 100, 0), ([''filename''], 100, 0)]
     \<and> map (\<lambda>c. map (resolve_field (the (initElasticsearch False))) (clause_fields c))
           (tier_clauses (Bool cs (Some 1)) ExactPhrase)
         = [[Some (FieldMapping ''text'' (Some ''whitespace'') [])], [None]]
     \<and> map (\<lambda>c. (clause_fields c, mm_operator c, mm_fuzziness c, clause_boost c))
           (tier_clauses (Bool cs (Some 1)) AllTerms)
         = [([''filename'', ''content''], Some And, None, 50)]
     \<and> map (\<lambda>c. (clause_fields c, mm_fuzziness c, mm_prefix_length c, clause_boost c))
           (tier_clauses (Bool cs (Some 1)) Fuzzy)
         = [([''filename'', ''content''], Some AUTO, Some 1, 10)]
     \<and> map (\<lambda>c. (clause_fields c, mm_operator c, mm_fuzziness c, clause_boost c))
           (tier_clauses (Bool cs (Some 1)) AnyTerm)
         = [([''filename'', ''content''], Some Or, None, 1)]
     \<and> (\<forall>c \<in> set cs. clause_query c = trim ''quarterly report''))"
proof -
  have h: "trim ''quarterly report'' \<noteq> []"
    by (rule trim_quarterly_report)
  show ?thesis
    using h searchDocuments_four_tiers [OF h] by (rule conjI)
qed

text \<open>
  C2. The boosts of the four tiers satisfy 100 > 50 + 10 + 1. Under additive scoring, where
  each should clause a document matches adds its boost, a document that matches a clause
  of the exact-phrase tier scores at least the boost of that tier, a document that matches
  no clause of the exact-phrase tier (whatever it matches among the lower tiers, the fuzzy
  tier alone included) scores at most the sum of the lower boosts, and so the first ranks
  strictly above the second. The boosts are those of the clauses; the weight suffix of a
  field (\<^verbatim>\<open>filename^2\<close> in the all-terms clause) is no boost of a tier and has no
  part in this scoring.
\<close>

theorem exact_tier_outranks_lower_tiers:
  assumes nb: "trim query \<noteq> []"
    and d1: "\<exists>c \<in> set (tier_clauses (body_query (searchDocuments_body query)) ExactPhrase). d1 c"
    and d2: "\<forall>c \<in> set (tier_clauses (body_query (searchDocuments_body query)) ExactPhrase). \<not> d2 c"
  shows "\<exists>b1 b2 b3 b4.
      tier_boost (body_query (searchDocuments_body query)) ExactPhrase = Some b1
    \<and> tier_boost (body_query (searchDocuments_body query)) AllTerms = Some b2
    \<and> tier_boost (body_query (searchDocuments_body query)) Fuzzy = Some b3
    \<and> tier_boost (body_query (searchDocuments_body query)) AnyTerm = Some b4
    \<and> b1 = 100 \<and> b2 = 50 \<and> b3 = 10 \<and> b4 = 1
    \<and> b2 + b3 + b4 < b1
    \<and> additive_score d2 (body_query (searchDocuments_body query)) \<le> b2 + b3 + b4
    \<and> b1 \<le> additive_score d1 (body_query (searchDocuments_body query))
    \<and> additive_score d2 (body_query (searchDocuments_body query))
        < additive_score d1 (body_query (searchDocuments_body query))"
  using d1 d2
  by (auto simp add: ranked_query [OF nb] tier_clauses_def tier_boost_def additive_score_def)

theorem exact_tier_outranks_lower_tiers_witness:
  "trim ''quarterly report'' \<noteq> []
   \<and> list_ex (\<lambda>c. clause_fields c = [''content.exact''])
        (tier_clauses (body_query (searchDocuments_body ''quarterly report'')) ExactPhrase)
   \<and> list_all (\<lambda>c. \<not> clause_tier c = Some Fuzzy)
        (tier_clauses (body_query (searchDocuments_body ''quarterly report'')) ExactPhrase)
   \<and> additive_score (\<lambda>c. clause_tier c = Some Fuzzy)
        (body_query (searchDocuments_body ''quarterly report''))
     < additive_score (\<lambda>c. clause_fields c = [''content.exact''])
        (body_query (searchDocuments_body ''quarterly report''))"
proof -
  have h: "trim ''quarterly report'' \<noteq> []"
    by (rule trim_quarterly_report)
  have h1: "\<exists>c \<in> set (tier_clauses (body_query (searchDocuments_body ''quarterly report'')) ExactPhrase).
         clause_fields c = [''content.exact'']"
    by (simp add: ranked_query [OF h] tier_clauses_def)
  have h2: "\<forall>c \<in> set (tier_clauses (body_query (searchDocuments_body ''quarterly report'')) ExactPhrase).
         \<not> clause_tier c = Some Fuzzy"
    by (simp add: tier_clauses_def)
  from exact_tier_outranks_lower_tiers [OF h h1 h2] h h1 h2 show ?thesis
    unfolding list_ex_iff list_all_iff by blast
qed

text \<open>
  C6, as the specification states it, fails: a blank query is answered with a match-all
  listing, but its cap is not the cap of \<open>getAllDocuments\<close>.
\<close>

theorem blank_query_cap_counterexample:
  "body_query (searchDocuments_body ''  '') = MatchAll
   \<and> body_size (searchDocuments_body ''  '') \<noteq> body_size getAllDocuments_body"
  by (simp add: searchDocuments_body_def getAllDocuments_body_def trim_def isWhiteSpace_def)

text \<open>
  C6, amended. For a query that is empty or only white space, \<open>searchDocuments\<close> sends no
  ranked query and no highlight request but a match-all listing capped at 100 results, the
  cap of every search of \<open>searchDocuments\<close>; the listing of \<open>getAllDocuments\<close> is capped
  at 10000.
\<close>

theorem blank_query_lists_with_search_cap:
  assumes "trim query = []"
  shows "body_query (searchDocuments_body query) = MatchAll
     \<and> body_highlight (searchDocuments_body query) = None
     \<and> body_size (searchDocuments_body query) = 100
     \<and> body_size (searchDocuments_body query) = body_size (searchDocuments_body other)
     \<and> body_query getAllDocuments_body = MatchAll
     \<and> body_size getAllDocuments_body = 10000"
  using assms
  by (simp add: searchDocuments_body_def getAllDocuments_body_def Let_def)

theorem blank_query_lists_with_search_cap_witness:
  "trim '' '' = []
   \<and> body_query (searchDocuments_body '' '') = MatchAll
   \<and> body_size (searchDocuments_body '' '') = 100
   \<and> body_size (searchDocuments_body '' '') = body_size (searchDocuments_body ''report'')"
proof -
  have h: "trim '' '' = []"
    by (simp add: trim_def isWhiteSpace_def)
  from blank_query_lists_with_search_cap [OF h, of "''report''"] h show ?thesis
    by simp
qed

section \<open>Properties of the index schema\<close>

text \<open>
  C7 at the schema that \<open>initElasticsearch\<close> creates when the index is missing. The ranked
  query targets the filename-like field \<^verbatim>\<open>filename\<close>, and the mapping does not declare
  that field at all: the delimiter-splitting, original-preserving analyzer is declared for
  \<^verbatim>\<open>originalname\<close> only, which no tier targets. The content field does carry its
  \<^verbatim>\<open>exact\<close> sub-field.
\<close>

theorem filename_field_has_no_declared_analyzer:
  "filter filename_like
      (concat (map clause_fields (query_clauses (body_query (searchDocuments_body ''abc-123'')))))
     = [''filename'', ''filename'', ''filename'', ''filename'']
   \<and> resolve_field (the (initElasticsearch False)) ''filename'' = None
   \<and> declared_analyzer (the (initElasticsearch False)) ''filename'' = None
   \<and> declared_analyzer (the (initElasticsearch False)) ''originalname'' = Some ''filename_analyzer''
   \<and> splits_and_preserves (the (initElasticsearch False)) ''filename_analyzer''
   \<and> declared_analyzer (the (initElasticsearch False)) ''content.exact'' = Some ''whitespace''"
  by (simp add: searchDocuments_body_def trim_def isWhiteSpace_def initElasticsearch_def
      declared_analyzer_def resolve_field_def splits_and_preserves_def fieldName_def
      filename_like_def Let_def)


section \<open>Properties of the highlight classifier\<close>

subsection \<open>The regular expression finds exactly the wrapped spans\<close>

lemma matchesIgnoreCase_append:
  "length p \<le> length s \<Longrightarrow> matchesIgnoreCase p (s @ t) = matchesIgnoreCase p s"
  by (induction p s rule: matchesIgnoreCase.induct) auto

lemma matchesIgnoreCase_same:
  "map canonicalize a = map canonicalize p \<Longrightarrow> matchesIgnoreCase p (a @ t)"
proof (induction p arbitrary: a)
  case Nil
  show ?case by simp
next
  case (Cons x p)
  then obtain c cs where a: "a = c # cs" by (cases a) auto
  with Cons show ?case by simp
qed

lemma matchesIgnoreCase_take:
  "matchesIgnoreCase p s \<Longrightarrow>
   map canonicalize (take (length p) s) = map canonicalize p \<and> length p \<le> length s"
  by (induction p s rule: matchesIgnoreCase.induct) auto

lemma same_ignoring_case_length: "same_ignoring_case a b \<Longrightarrow> length a = length b"
  unfolding same_ignoring_case_def by (rule map_eq_imp_length_eq)

lemma closes_early_iff:
  "closes_early inner closing
   \<longleftrightarrow> (\<exists>k < length inner. matchesIgnoreCase closeTag (drop k (inner @ closing)))"
  by (auto simp add: closes_early_def list_ex_iff)

lemma lazyContent_first_close:
  assumes "\<not> list_ex isLineTerminator inner" and "\<not> closes_early inner closing"
    and "same_ignoring_case closing closeTag"
  shows "lazyContent (inner @ closing @ rest) = Some inner"
  using assms(1,2)
proof (induction inner)
  case Nil
  have m: "matchesIgnoreCase closeTag (closing @ rest)"
    using assms(3) unfolding same_ignoring_case_def by (rule matchesIgnoreCase_same)
  have "length closing = length closeTag"
    using assms(3) by (rule same_ignoring_case_length)
  then obtain x xs where "closing = x # xs"
    by (cases closing) (simp_all add: closeTag_def)
  with m show ?case by simp
next
  case (Cons c cs)
  have len: "length closeTag \<le> length ((c # cs) @ closing)"
    using same_ignoring_case_length [OF assms(3)] by simp
  from Cons.prems(2) have no: "\<forall>k < Suc (length cs). \<not> matchesIgnoreCase closeTag (drop k ((c # cs) @ closing))"
    unfolding closes_early_iff by simp
  then have "\<not> matchesIgnoreCase closeTag ((c # cs) @ closing)"
    by (metis drop0 zero_less_Suc)
  with len have here: "\<not> matchesIgnoreCase closeTag (((c # cs) @ closing) @ rest)"
    using matchesIgnoreCase_append by blast
  have "\<not> closes_early cs closing"
    unfolding closes_early_iff
  proof
    assume "\<exists>k < length cs. matchesIgnoreCase closeTag (drop k (cs @ closing))"
    then obtain k where "k < length cs" "matchesIgnoreCase closeTag (drop k (cs @ closing))"
      by blast
    then have "Suc k < Suc (length cs)"
      "matchesIgnoreCase closeTag (drop (Suc k) ((c # cs) @ closing))"
      by simp_all
    with no show False by blast
  qed
  moreover from Cons.prems(1) have "\<not> list_ex isLineTerminator cs" and "\<not> isLineTerminator c"
    by simp_all
  ultimately show ?case
    using Cons.IH here by simp
qed

lemma lazyContent_sound:
  "lazyContent s = Some inner \<Longrightarrow>
   \<not> list_ex isLineTerminator inner
   \<and> take (length inner) s = inner
   \<and> matchesIgnoreCase closeTag (drop (length inner) s)
   \<and> (\<forall>k < length inner. \<not> matchesIgnoreCase closeTag (drop k s))"
proof (induction s arbitrary: inner)
  case Nil
  then show ?case by simp
next
  case (Cons c cs)
  show ?case
  proof (cases "matchesIgnoreCase closeTag (c # cs)")
    case True
    with Cons.prems have "inner = []" by simp
    with True show ?thesis by simp
  next
    case False
    with Cons.prems have nl: "\<not> isLineTerminator c"
      and "map_option ((#) c) (lazyContent cs) = Some inner"
      by (simp_all split: if_splits)
    then obtain inner' where i: "lazyContent cs = Some inner'" "inner = c # inner'"
      by auto
    from Cons.IH [OF i(1)] have ih:
      "\<not> list_ex isLineTerminator inner'" "take (length inner') cs = inner'"
      "matchesIgnoreCase closeTag (drop (length inner') cs)"
      "\<forall>k < length inner'. \<not> matchesIgnoreCase closeTag (drop k cs)"
      by simp_all
    have "\<forall>k < length inner. \<not> matchesIgnoreCase closeTag (drop k (c # cs))"
    proof (intro allI impI)
      fix k assume k: "k < length inner"
      show "\<not> matchesIgnoreCase closeTag (drop k (c # cs))"
      proof (cases k)
        case 0
        with False show ?thesis by simp
      next
        case (Suc j)
        with k i(2) have "j < length inner'" by simp
        with ih(4) Suc show ?thesis by simp
      qed
    qed
    with ih nl i(2) show ?thesis by simp
  qed
qed

lemma matchSpan_wrapped:
  assumes "wrapped opening inner closing"
  shows "matchSpan (opening @ inner @ closing @ rest) = Some inner"
proof -
  from assms have o: "same_ignoring_case opening openTag" and c: "same_ignoring_case closing closeTag"
    and nl: "\<not> list_ex isLineTerminator inner" and ne: "\<not> closes_early inner closing"
    by (simp_all add: wrapped_def)
  have "matchesIgnoreCase openTag (opening @ inner @ closing @ rest)"
    using o unfolding same_ignoring_case_def by (rule matchesIgnoreCase_same)
  moreover have "drop (length openTag) (opening @ inner @ closing @ rest) = inner @ closing @ rest"
    using same_ignoring_case_length [OF o] by simp
  ultimately show ?thesis
    by (simp add: matchSpan_def lazyContent_first_close [OF nl ne c])
qed

lemma matchSpan_sound:
  assumes "matchSpan s = Some inner"
  shows "wrapped (take (length openTag) s) inner
           (take (length closeTag) (drop (length openTag + length inner) s))
         \<and> s = take (length openTag) s @ inner
                @ take (length closeTag) (drop (length openTag + length inner) s)
                @ drop (length openTag + length inner + length closeTag) s"
proof -
  define s' where "s' = drop (length openTag) s"
  define cl where "cl = take (length closeTag) (drop (length inner) s')"
  define r where "r = drop (length closeTag) (drop (length inner) s')"
  from assms have mo: "matchesIgnoreCase openTag s" and lz: "lazyContent s' = Some inner"
    by (simp_all add: matchSpan_def s'_def split: if_splits)
  from matchesIgnoreCase_take [OF mo] have o: "same_ignoring_case (take (length openTag) s) openTag"
    by (simp add: same_ignoring_case_def)
  from lazyContent_sound [OF lz] have nl: "\<not> list_ex isLineTerminator inner"
    and ti: "take (length inner) s' = inner"
    and mc: "matchesIgnoreCase closeTag (drop (length inner) s')"
    and early: "\<forall>k < length inner. \<not> matchesIgnoreCase closeTag (drop k s')"
    by simp_all
  from matchesIgnoreCase_take [OF mc] have c: "same_ignoring_case cl closeTag"
    by (simp add: same_ignoring_case_def cl_def)
  have "drop (length inner) s' = cl @ r"
    unfolding cl_def r_def by (rule append_take_drop_id [symmetric])
  with ti have split: "s' = inner @ cl @ r"
    by (metis append_take_drop_id)
  have "\<not> closes_early inner cl"
    unfolding closes_early_iff
  proof
    assume "\<exists>k < length inner. matchesIgnoreCase closeTag (drop k (inner @ cl))"
    then obtain k where k: "k < length inner"
      and m: "matchesIgnoreCase closeTag (drop k (inner @ cl))"
      by blast
    define x where "x = drop k (inner @ cl)"
    have "length closeTag \<le> length x"
      unfolding x_def using k same_ignoring_case_length [OF c] by simp
    then have "matchesIgnoreCase closeTag (x @ r) = matchesIgnoreCase closeTag x"
      by (rule matchesIgnoreCase_append)
    with m have "matchesIgnoreCase closeTag (x @ r)"
      unfolding x_def by blast
    moreover have "drop k s' = x @ r"
      unfolding x_def split using k by simp
    ultimately have "matchesIgnoreCase closeTag (drop k s')" by simp
    with early k show False by blast
  qed
  with o c nl have w: "wrapped (take (length openTag) s) inner cl"
    by (simp add: wrapped_def)
  have cl': "cl = take (length closeTag) (drop (length openTag + length inner) s)"
    by (simp add: cl_def s'_def add.commute)
  have r': "r = drop (length openTag + length inner + length closeTag) s"
    by (simp add: r_def s'_def add.commute add.left_commute)
  have "s = take (length openTag) s @ s'"
    by (simp add: s'_def)
  then have "s = take (length openTag) s @ inner @ cl @ r"
    using split by simp
  with w show ?thesis
    unfolding cl' r' by blast
qed

lemma span_at_iff: "span_at s \<longleftrightarrow> matchSpan s \<noteq> None"
proof
  assume "span_at s"
  then obtain n where w: "wrapped (take (length openTag) s) (take n (drop (length openTag) s))
        (take (length closeTag) (drop (length openTag + n) s))"
    unfolding span_at_def list_ex_iff by blast
  define op where "op = take (length openTag) s"
  define inn where "inn = take n (drop (length openTag) s)"
  define cl where "cl = take (length closeTag) (drop (length openTag + n) s)"
  define r where "r = drop (length closeTag) (drop (length openTag + n) s)"
  from w have w': "wrapped op inn cl"
    by (simp add: op_def inn_def cl_def)
  then have "length cl = length closeTag"
    unfolding wrapped_def by (blast dest: same_ignoring_case_length)
  then have "length cl = 7" by (simp add: closeTag_def)
  then have "length openTag + n < length s"
    unfolding cl_def by (cases "length openTag + n < length s") simp_all
  have inn': "drop (length openTag) s = inn @ drop n (drop (length openTag) s)"
    unfolding inn_def by (rule append_take_drop_id [symmetric])
  have dd: "drop n (drop (length openTag) s) = drop (length openTag + n) s"
    by (simp add: add.commute)
  have "drop n (drop (length openTag) s) = cl @ r"
    unfolding cl_def r_def dd by (rule append_take_drop_id [symmetric])
  with inn' have "s = op @ inn @ cl @ r"
    unfolding op_def by (metis append_take_drop_id)
  with matchSpan_wrapped [OF w', of r] show "matchSpan s \<noteq> None"
    by simp
next
  assume "matchSpan s \<noteq> None"
  then obtain inner where m: "matchSpan s = Some inner" by blast
  from matchSpan_sound [OF m] have w: "wrapped (take (length openTag) s) inner
           (take (length closeTag) (drop (length openTag + length inner) s))"
    by simp
  from m have "lazyContent (drop (length openTag) s) = Some inner"
    by (simp add: matchSpan_def split: if_splits)
  from lazyContent_sound [OF this] have ti: "take (length inner) (drop (length openTag) s) = inner"
    by simp
  have "length inner \<le> length (drop (length openTag) s)"
    by (metis ti length_take min.cobounded1)
  then have "length inner < Suc (length s)" by simp
  then have "length inner \<in> set [0..<Suc (length s)]" by (simp only: set_upt atLeastLessThan_iff le0 simp_thms)
  moreover have "wrapped (take (length openTag) s)
                     (take (length inner) (drop (length openTag) s))
                     (take (length closeTag) (drop (length openTag + length inner) s))"
    using w ti by simp
  ultimately show "span_at s"
    unfolding span_at_def list_ex_iff by blast
qed

lemma replaceSpans_skip:
  "replaceSpans term terms (length xs) (xs @ ys) = replaceSpans term terms 0 ys"
proof (induction xs)
  case Nil
  show ?case by (cases ys) simp_all
next
  case (Cons x xs)
  then show ?case by simp
qed

lemma span_starts_within_iff:
  "span_starts_within t rest \<longleftrightarrow> (\<exists>k < length t. span_at (drop k (t @ rest)))"
  by (auto simp add: span_starts_within_def list_ex_iff)

lemma span_starts_within_Cons:
  "span_starts_within (c # t) rest \<longleftrightarrow> span_at (c # t @ rest) \<or> span_starts_within t rest"
proof
  assume "span_starts_within (c # t) rest"
  then obtain k where k: "k < Suc (length t)" "span_at (drop k ((c # t) @ rest))"
    unfolding span_starts_within_iff by auto
  show "span_at (c # t @ rest) \<or> span_starts_within t rest"
  proof (cases k)
    case 0
    with k show ?thesis by simp
  next
    case (Suc j)
    with k have "j < length t" "span_at (drop j (t @ rest))" by simp_all
    then show ?thesis unfolding span_starts_within_iff by blast
  qed
next
  assume "span_at (c # t @ rest) \<or> span_starts_within t rest"
  then show "span_starts_within (c # t) rest"
  proof
    assume "span_at (c # t @ rest)"
    then have "0 < length (c # t) \<and> span_at (drop 0 ((c # t) @ rest))" by simp
    then show ?thesis unfolding span_starts_within_iff by blast
  next
    assume "span_starts_within t rest"
    then obtain j where "j < length t" "span_at (drop j (t @ rest))"
      unfolding span_starts_within_iff by blast
    then have "Suc j < length (c # t) \<and> span_at (drop (Suc j) ((c # t) @ rest))" by simp
    then show ?thesis unfolding span_starts_within_iff by blast
  qed
qed

lemma replaceSpans_plain:
  "\<not> span_starts_within t rest \<Longrightarrow>
   replaceSpans term terms 0 (t @ rest) = t @ replaceSpans term terms 0 rest"
proof (induction t)
  case Nil
  show ?case by simp
next
  case (Cons c t)
  then have "\<not> span_at (c # t @ rest)" and "\<not> span_starts_within t rest"
    by (simp_all add: span_starts_within_Cons)
  then have "matchSpan (c # t @ rest) = None" and "replaceSpans term terms 0 (t @ rest) = t @ replaceSpans term terms 0 rest"
    using Cons.IH by (simp_all add: span_at_iff)
  then show ?case by simp
qed

lemma replaceSpans_wrapped:
  assumes "wrapped opening inner closing"
  shows "replaceSpans term terms 0 (opening @ inner @ closing @ rest)
         = replacer term terms inner @ replaceSpans term terms 0 rest"
proof -
  from assms have lo: "length opening = length openTag" and lc: "length closing = length closeTag"
    by (simp_all add: wrapped_def same_ignoring_case_length)
  from lo obtain c cs where oc: "opening = c # cs"
    by (cases "opening") (simp_all add: openTag_def)
  have m: "matchSpan (c # cs @ inner @ closing @ rest) = Some inner"
    using matchSpan_wrapped [OF assms, of rest] by (simp add: oc)
  have len: "length openTag + length inner + length closeTag - 1 = length (cs @ inner @ closing)"
    using lo lc by (simp add: oc)
  have "replaceSpans term terms 0 (c # cs @ inner @ closing @ rest)
        = replacer term terms inner
          @ replaceSpans term terms (length (cs @ inner @ closing)) ((cs @ inner @ closing) @ rest)"
    using m len by simp
  also have "\<dots> = replacer term terms inner @ replaceSpans term terms 0 rest"
    by (simp only: replaceSpans_skip)
  finally show ?thesis by (simp add: oc)
qed

lemma replacer_label:
  "replacer (toLowerCase (trim q)) (splitWhitespace [] (toLowerCase (trim q))) inner
   = wrap (label_of q inner) inner"
  by (auto simp add: replacer_def label_of_def list_ex_iff Let_def)

lemma replaceSpans_segments:
  "well_formed segs \<Longrightarrow>
   replaceSpans (toLowerCase (trim q)) (splitWhitespace [] (toLowerCase (trim q))) 0
     (fragment_of segs)
   = concat (map (relabel q) segs)"
proof (induction segs)
  case Nil
  show ?case by (simp add: fragment_of_def)
next
  case (Cons seg segs)
  show ?case
  proof (cases seg)
    case (PlainText t)
    with Cons.prems have p: "\<not> span_starts_within t (fragment_of segs)" and w: "well_formed segs"
      by simp_all
    have "fragment_of (seg # segs) = t @ fragment_of segs"
      by (simp add: fragment_of_def PlainText)
    then show ?thesis
      using Cons.IH [OF w] replaceSpans_plain [OF p] PlainText by simp
  next
    case (WrappedSpan opn inner cls)
    with Cons.prems have p: "wrapped opn inner cls" and w: "well_formed segs"
      by simp_all
    have "fragment_of (seg # segs) = opn @ inner @ cls @ fragment_of segs"
      by (simp add: fragment_of_def WrappedSpan)
    then show ?thesis
      using Cons.IH [OF w] replaceSpans_wrapped [OF p] WrappedSpan
      by (simp add: replacer_label)
  qed
qed

lemma every_fragment_decomposes: "\<exists>segs. well_formed segs \<and> fragment_of segs = html"
proof (induction html rule: length_induct)
  case (1 html)
  show ?case
  proof (cases html)
    case Nil
    have "well_formed [] \<and> fragment_of [] = []" by (simp add: fragment_of_def)
    with Nil show ?thesis by blast
  next
    case (Cons c cs)
    show ?thesis
    proof (cases "matchSpan html")
      case None
      from 1 Cons obtain segs where segs: "well_formed segs" "fragment_of segs = cs"
        by auto
      from None Cons have "\<not> span_at (c # [] @ cs)" by (simp add: span_at_iff)
      then have "\<not> span_starts_within [c] cs"
        by (simp add: span_starts_within_Cons span_starts_within_iff)
      with segs have "well_formed (PlainText [c] # segs) \<and> fragment_of (PlainText [c] # segs) = html"
        by (simp add: fragment_of_def Cons)
      then show ?thesis by blast
    next
      case (Some inner)
      define op where "op = take (length openTag) html"
      define cl where "cl = take (length closeTag) (drop (length openTag + length inner) html)"
      define r where "r = drop (length openTag + length inner + length closeTag) html"
      from matchSpan_sound [OF Some] have w: "wrapped op inner cl" and h: "html = op @ inner @ cl @ r"
        by (simp_all add: op_def cl_def r_def)
      from w have "length op = length openTag"
        by (simp add: wrapped_def same_ignoring_case_length)
      then have "length op = 24" by (simp add: openTag_def)
      moreover from h have "length html = length (op @ inner @ cl @ r)"
        by (rule arg_cong)
      ultimately have "length r < length html"
        by simp
      with 1 obtain segs where segs: "well_formed segs" "fragment_of segs = r"
        by blast
      with w h have "well_formed (WrappedSpan op inner cl # segs)
          \<and> fragment_of (WrappedSpan op inner cl # segs) = html"
        by (simp add: fragment_of_def)
      then show ?thesis by blast
    qed
  qed
qed

lemma processHighlights_replaceSpans:
  "trim searchTerm \<noteq> [] \<Longrightarrow>
   processHighlights searchTerm html
   = replaceSpans (toLowerCase (trim searchTerm))
       (splitWhitespace [] (toLowerCase (trim searchTerm))) 0 html"
  by (cases html) (auto simp add: processHighlights_def Let_def trim_def)

subsection \<open>The claim about the classifier\<close>

text \<open>
  C3, as the specification states it, fails, in three ways. The classifier compares the
  inner text as it stands and strips no nested markup: for the query \<^verbatim>\<open>report\<close>,
  the span around \<^verbatim>\<open><b>report</b>\<close> is exact by the specification's wording and
  comes out fuzzy. A query of white space only is not empty, and the classifier returns
  the fragment as it came, so the span around \<^verbatim>\<open>repot\<close> keeps the exact label. And
  the pattern's \<^verbatim>\<open>.\<close> matches no line terminator, so a span whose inner text holds a
  line feed is not found and keeps the exact label, where the wording makes it fuzzy.
\<close>

theorem processHighlights_counterexample:
  "spec_label_of ''report'' ''<b>report</b>'' = ExactSpan
   \<and> processHighlights ''report'' ''<span class=\"highlight\"><b>report</b></span>''
       = ''<span class=\"highlight-fuzzy\"><b>report</b></span>''
   \<and> '' '' \<noteq> [] \<and> spec_label_of '' '' ''repot'' = FuzzySpan
   \<and> processHighlights '' '' ''<span class=\"highlight\">repot</span>''
       = ''<span class=\"highlight\">repot</span>''
   \<and> spec_label_of ''report'' (''repot'' @ [CHR 0x0A]) = FuzzySpan
   \<and> processHighlights ''report'' (''<span class=\"highlight\">repot'' @ [CHR 0x0A] @ ''</span>'')
       = ''<span class=\"highlight\">repot'' @ [CHR 0x0A] @ ''</span>''"
  by code_simp

text \<open>
  C3, amended. A blank query leaves the fragment as it is. For a query that is not blank:
  every fragment is a sequence of plain text and wrapped spans, where a wrapped span is
  the opening tag and the closing tag, in any letter case, around an inner text on one
  line that ends at the first closing tag, and plain text is any text in which no wrapped
  span starts; and for every such reading of the fragment the classifier leaves the plain
  text as it is and relabels every span on its own: the span is exact if and only if its
  inner text, lowercased and with any nested markup left in place, equals a
  whitespace-separated term of the trimmed, lowercased query or that whole query, and fuzzy
  otherwise; the inner text keeps its casing, and the tags come out in lower case.
\<close>

theorem processHighlights_relabels_each_span:
  "(trim searchTerm = [] \<longrightarrow> processHighlights searchTerm html = html)
   \<and> (trim searchTerm \<noteq> [] \<longrightarrow>
        (\<exists>segs. well_formed segs \<and> fragment_of segs = html)
        \<and> (\<forall>segs. well_formed segs \<and> fragment_of segs = html \<longrightarrow>
              processHighlights searchTerm html = concat (map (relabel searchTerm) segs)))"
proof (intro conjI impI allI)
  assume "trim searchTerm = []"
  then show "processHighlights searchTerm html = html"
    by (simp add: processHighlights_def)
next
  show "\<exists>segs. well_formed segs \<and> fragment_of segs = html"
    by (rule every_fragment_decomposes)
next
  fix segs
  assume nb: "trim searchTerm \<noteq> []" and d: "well_formed segs \<and> fragment_of segs = html"
  then show "processHighlights searchTerm html = concat (map (relabel searchTerm) segs)"
    using replaceSpans_segments [of segs searchTerm]
    by (simp add: processHighlights_replaceSpans [OF nb])
qed

theorem processHighlights_relabels_each_span_witness:
  "trim ''report'' \<noteq> []
   \<and> well_formed
        [PlainText ''a < b '', WrappedSpan ''<SPAN CLASS=\"highlight\">'' ''Report'' ''</span>'',
         PlainText '' or '', WrappedSpan ''<span class=\"highlight\">'' ''reports'' ''</span>'',
         PlainText '', '', WrappedSpan ''<span class=\"highlight\">'' ''repot'' ''</Span>'']
   \<and> processHighlights ''report''
       ''a < b <SPAN CLASS=\"highlight\">Report</span> or <span class=\"highlight\">reports</span>, <span class=\"highlight\">repot</Span>''
     = ''a < b <span class=\"highlight\">Report</span> or <span class=\"highlight-fuzzy\">reports</span>, <span class=\"highlight-fuzzy\">repot</span>''
   \<and> trim '' '' = []
   \<and> processHighlights '' '' ''<span class=\"highlight\">repot</span>''
       = ''<span class=\"highlight\">repot</span>''"
proof -
  define segs where "segs =
        [PlainText ''a < b '', WrappedSpan ''<SPAN CLASS=\"highlight\">'' ''Report'' ''</span>'',
         PlainText '' or '', WrappedSpan ''<span class=\"highlight\">'' ''reports'' ''</span>'',
         PlainText '', '', WrappedSpan ''<span class=\"highlight\">'' ''repot'' ''</Span>'']"
  define html where "html =
       ''a < b <SPAN CLASS=\"highlight\">Report</span> or <span class=\"highlight\">reports</span>, <span class=\"highlight\">repot</Span>''"
  have h1: "trim ''report'' \<noteq> []"
    by code_simp
  have h2: "well_formed segs"
    unfolding segs_def by code_simp
  have h3: "fragment_of segs = html"
    unfolding segs_def html_def by (simp add: fragment_of_def)
  have l: "label_of ''report'' ''Report'' = ExactSpan"
    "label_of ''report'' ''reports'' = FuzzySpan"
    "label_of ''report'' ''repot'' = FuzzySpan"
    by code_simp+
  have "processHighlights ''report'' html = concat (map (relabel ''report'') segs)"
    using processHighlights_relabels_each_span [of "''report''" html] h1 h2 h3 by blast
  then have r: "processHighlights ''report'' html
     = ''a < b <span class=\"highlight\">Report</span> or <span class=\"highlight-fuzzy\">reports</span>, <span class=\"highlight-fuzzy\">repot</span>''"
    by (simp add: segs_def l)
  have h4: "trim '' '' = []"
    by code_simp
  have b: "processHighlights '' '' ''<span class=\"highlight\">repot</span>''
       = ''<span class=\"highlight\">repot</span>''"
    using processHighlights_relabels_each_span [of "'' ''" "''<span class=\"highlight\">repot</span>''"] h4
    by blast
  from h1 h2 r h4 b show ?thesis
    unfolding segs_def html_def by blast
qed


section \<open>Properties of the index service and the reconciliation\<close>

subsection \<open>What each operation changes\<close>

lemma say_frame [simp]:
  "uploads (say l w) = uploads w" "es_up (say l w) = es_up w"
  "es_index (say l w) = es_index w" "es_refuses (say l w) = es_refuses w"
  "es_calls (say l w) = es_calls w" "now (say l w) = now w"
  "console (say l w) = console w @ [l]" "es_searchable (say l w) = es_searchable w"
  by (simp_all add: say_def)

lemma indexed_ids_say [simp]: "indexed_ids (say l w) = indexed_ids w"
  by (simp add: indexed_ids_def)

lemma listed_ids_say [simp]: "listed_ids (say l w) = listed_ids w"
  by (simp add: listed_ids_def visible_ids_def split: option.splits)

lemma deleted_ids_append [simp]: "deleted_ids (xs @ ys) = deleted_ids xs @ deleted_ids ys"
  by (induction xs rule: deleted_ids.induct) simp_all

lemma upserted_ids_append [simp]: "upserted_ids (xs @ ys) = upserted_ids xs @ upserted_ids ys"
  by (induction xs rule: upserted_ids.induct) simp_all




















subsection \<open>The files of the storage root\<close>








subsection \<open>A run on an existing storage root\<close>







subsection \<open>The claims about reconciliation and delete\<close>

lemma deleted_ids_DeleteCalls [simp]: "deleted_ids (map DeleteCall xs) = xs"
  by (induction xs) simp_all

lemma upserted_ids_DeleteCalls [simp]: "upserted_ids (map DeleteCall xs) = []"
  by (induction xs) simp_all

lemma refresh_frame [simp]:
  "uploads (refresh w) = uploads w" "es_up (refresh w) = es_up w"
  "es_index (refresh w) = es_index w" "es_refuses (refresh w) = es_refuses w"
  "es_calls (refresh w) = es_calls w"
  by (simp_all add: refresh_def)

lemma refresh_ids [simp]:
  "indexed_ids (refresh w) = indexed_ids w" "visible_ids (refresh w) = indexed_ids w"
  by (simp_all add: refresh_def indexed_ids_def visible_ids_def split: option.splits)

lemma searchable_update_ids [simp]:
  "indexed_ids (w\<lparr>es_searchable := s\<rparr>) = indexed_ids w"
  by (simp add: indexed_ids_def)



lemmas world_simps = syncFilesWithElasticsearch_def Let_def filesInDirectory_def statSync_def
  say_def new_calls_def indexed_ids_def plain_file_def stored_def backing_files_def
  regular_file_def hidden_def startsWith_def getAllDocuments_def client_search_all_def
  client_delete_def client_index_def deleteDocument_def indexDocument_def indexNewFile_def
  document_of_def getAllDocuments_body_def isSupportedFileType_def refresh_def nothing_def
  second_run_def listed_ids_def visible_ids_def acc_world_def noText_def

lemma mime_examples:
  "getMimeType ''a.pdf'' = Some ''application/pdf''" "getMimeType ''notes.txt'' = None"
  by code_simp+













text \<open>
  C8 at a storage root that holds one text file, with an empty index. The file is of an
  unsupported type and absent from the index; the run does not index it and raises no
  error, but its summary has no skipped line and the skipped count stays 0: the list of
  new files is already filtered to supported types, so the loop never reaches the branch
  that counts a skipped file.
\<close>

theorem unsupported_files_not_reported_as_skipped:
  "unsupported_absent notes_world = [''notes.txt'']
   \<and> fst (syncFilesWithElasticsearch noText notes_world) = Inr ()
   \<and> console (snd (syncFilesWithElasticsearch noText notes_world))
       = [SyncStarted, FilesFound 1, DocumentsFound 0, SyncDone, SummaryOrphans 0,
          SummaryIndexed 0]
   \<and> reported_skipped (console (snd (syncFilesWithElasticsearch noText notes_world))) = 0
   \<and> upserted_ids (es_calls (snd (syncFilesWithElasticsearch noText notes_world))) = []"
  by (simp add: notes_world_def unsupported_absent_def world_simps mime_examples)

text \<open>
  The same in general: on supported names, which are all the loop ever receives, the
  skipped counter does not move.
\<close>

lemma indexNewFile_counts_no_supported_file_as_skipped:
  "getMimeType name \<noteq> None \<Longrightarrow>
   fst (snd (indexNewFile ex entries name acc)) = fst (snd acc)"
  by (cases acc)
     (auto simp add: indexNewFile_def Let_def split_beta split: option.splits sum.splits)

lemma indexNewFiles_counts_no_supported_file_as_skipped:
  "\<forall>name \<in> set names. isSupportedFileType name \<Longrightarrow>
   fst (snd (indexNewFiles ex entries names acc)) = fst (snd acc)"
proof (induction names arbitrary: acc)
  case Nil
  show ?case by simp
next
  case (Cons name names)
  then have "getMimeType name \<noteq> None" by (simp add: isSupportedFileType_def)
  then have "fst (snd (indexNewFile ex entries name acc)) = fst (snd acc)"
    by (rule indexNewFile_counts_no_supported_file_as_skipped)
  with Cons show ?case by simp
qed

lemma diverged_ids: "indexed_ids diverged_world = [''gone.pdf'']"
  by (simp add: diverged_world_def indexed_ids_def stored_def)

text \<open>
  C9. When the index service answers and holds no document of the given id, the delete
  request is answered 404 and \<open>deleteDocument\<close> returns normally: no error reaches the
  caller, the index is as before, and nothing is printed.
\<close>

theorem deleteDocument_not_found_is_success:
  assumes "es_up w" and "ident \<notin> set (indexed_ids w)"
  shows "fst (client_delete ident w) = Inl (ResponseError 404)
     \<and> fst (deleteDocument ident w) = Inr ()
     \<and> es_index (snd (deleteDocument ident w)) = es_index w
     \<and> console (snd (deleteDocument ident w)) = console w"
  using assms
  by (cases "es_index w")
     (simp_all add: deleteDocument_def client_delete_def Let_def indexed_ids_def say_def)

theorem deleteDocument_not_found_is_success_witness:
  "es_up diverged_world \<and> ''a.pdf'' \<notin> set (indexed_ids diverged_world)
   \<and> fst (client_delete ''a.pdf'' diverged_world) = Inl (ResponseError 404)
   \<and> fst (deleteDocument ''a.pdf'' diverged_world) = Inr ()
   \<and> es_index (snd (deleteDocument ''a.pdf'' diverged_world)) = Some [stored ''gone.pdf'']
   \<and> console (snd (deleteDocument ''a.pdf'' diverged_world)) = []"
proof -
  have h1: "es_up diverged_world"
    by (simp add: diverged_world_def)
  have h2: "''a.pdf'' \<notin> set (indexed_ids diverged_world)"
    by (simp add: diverged_ids)
  have s: "es_index diverged_world = Some [stored ''gone.pdf'']" "console diverged_world = []"
    by (simp_all add: diverged_world_def)
  from deleteDocument_not_found_is_success [OF h1 h2] h1 h2 show ?thesis
    by (simp add: s)
qed

text \<open>
  C10. When the storage root does not exist, the reconciliation creates it (empty) and
  returns at once: it sends no request at all, so no delete and no upsert, and the index is
  exactly as before, whatever it holds.
\<close>

theorem sync_without_uploads_directory:
  assumes "uploads w = None"
  shows "fst (syncFilesWithElasticsearch ex w) = Inr ()
     \<and> uploads (snd (syncFilesWithElasticsearch ex w)) = Some []
     \<and> es_index (snd (syncFilesWithElasticsearch ex w)) = es_index w
     \<and> es_calls (snd (syncFilesWithElasticsearch ex w)) = es_calls w
     \<and> new_calls w (snd (syncFilesWithElasticsearch ex w)) = []
     \<and> console (snd (syncFilesWithElasticsearch ex w))
         = console w @ [SyncStarted, UploadsMissing, NothingToSync]"
  using assms
  by (simp add: syncFilesWithElasticsearch_def Let_def new_calls_def say_def)

theorem sync_without_uploads_directory_witness:
  "uploads no_uploads_world = None
   \<and> unsupported_absent no_uploads_world = []
   \<and> indexed_ids no_uploads_world = [''gone.pdf'']
   \<and> fst (syncFilesWithElasticsearch noText no_uploads_world) = Inr ()
   \<and> uploads (snd (syncFilesWithElasticsearch noText no_uploads_world)) = Some []
   \<and> indexed_ids (snd (syncFilesWithElasticsearch noText no_uploads_world)) = [''gone.pdf'']
   \<and> new_calls no_uploads_world (snd (syncFilesWithElasticsearch noText no_uploads_world)) = []"
proof -
  have h: "uploads no_uploads_world = None"
    by (simp add: no_uploads_world_def)
  have i: "indexed_ids no_uploads_world = [''gone.pdf'']"
    by (simp add: no_uploads_world_def indexed_ids_def stored_def)
  have u: "unsupported_absent no_uploads_world = []"
    by (simp add: unsupported_absent_def h)
  have "es_index (snd (syncFilesWithElasticsearch noText no_uploads_world)) = es_index no_uploads_world"
    using sync_without_uploads_directory [OF h, of noText] by simp
  then have i': "indexed_ids (snd (syncFilesWithElasticsearch noText no_uploads_world)) = [''gone.pdf'']"
    using i by (simp add: indexed_ids_def)
  from sync_without_uploads_directory [OF h, of noText] h i i' u show ?thesis
    by simp
qed


end
